theory Spec2Isabelle
  imports Main "HOL-Library.Word"
begin

section \<open>Results of fallible backend code\<close>

text \<open>
  The Rust backend returns \<open>Result<T, String>\<close>; an index out of range panics.
  Both are values here, so that "does not panic" is a statement about a result.
\<close>

datatype 'a outcome = Ok 'a | Err string | Panic

section \<open>HID report parsing: \<open>StreamDeck::read_buttons\<close> (implementation guide, Phase 3)\<close>

type_synonym byte = "8 word"

text \<open>
  \<open>BUTTON_COUNT\<close> is declared in \<open>src-tauri/src/hid/constants.rs\<close>; the guide's loop
  assigns \<open>*current\<close> (a \<open>[bool; BUTTON_COUNT]\<close>) to a \<open>[bool; 15]\<close>, and the frontend
  allocates 15 states, which fixes it at 15.
\<close>

definition BUTTON_COUNT :: nat where
  "BUTTON_COUNT = 15"

text \<open>\<open>let offset = 4;\<close> (button data of the MK.2 starts at byte 4).\<close>

definition offset :: nat where
  "offset = 4"

text \<open>
  One call of \<open>self.device.read(&mut buf)\<close>, as the environment answers it: the bytes
  the device delivered (their number is \<open>bytes_read\<close>), or a read error.
\<close>

datatype hid_read = Bytes "byte list" | Failed string

text \<open>
  \<open>let mut buf = [0u8; 512]\<close> after the read: at most 512 delivered bytes in front,
  the rest still zero.
\<close>

definition fill_buf :: "byte list \<Rightarrow> byte list" where
  "fill_buf data = take 512 data @ replicate (512 - length (take 512 data)) 0"

definition bytes_read :: "byte list \<Rightarrow> nat" where
  "bytes_read data = length (take 512 data)"

record StreamDeck =
  device :: string
  button_states :: "bool list"

text \<open>
  \<open>for i in 0..BUTTON_COUNT { self.button_states[i] = buf[offset + i] != 0; }\<close>
  with \<open>k\<close> iterations left at index \<open>i\<close>. Either index out of range is a panic (\<open>None\<close>).
\<close>

fun store_buttons :: "nat \<Rightarrow> nat \<Rightarrow> byte list \<Rightarrow> bool list \<Rightarrow> bool list option" where
  "store_buttons 0 i buf states = Some states"
| "store_buttons (Suc k) i buf states =
     (if offset + i < length buf \<and> i < length states
      then store_buttons k (Suc i) buf (states[i := (buf ! (offset + i) \<noteq> 0)])
      else None)"

definition read_buttons :: "hid_read \<Rightarrow> StreamDeck \<Rightarrow> bool list outcome \<times> StreamDeck" where
  "read_buttons r self =
     (case r of
        Bytes data \<Rightarrow>
          if bytes_read data > 0
          then (case store_buttons BUTTON_COUNT 0 (fill_buf data) (button_states self) of
                  Some states \<Rightarrow> (Ok states, self\<lparr>button_states := states\<rparr>)
                | None \<Rightarrow> (Panic, self))
          else (Ok (button_states self), self)
      | Failed e \<Rightarrow> (Err (''Read error: '' @ e), self))"

text \<open>The states the loop leaves behind, index by index.\<close>

definition decoded :: "byte list \<Rightarrow> bool list" where
  "decoded data = map (\<lambda>i. fill_buf data ! (offset + i) \<noteq> 0) [0..<BUTTON_COUNT]"


section \<open>The polling loop (implementation guide, Phase 5)\<close>

text \<open>
  What the environment answers in one iteration: the device read, and the result of
  \<open>audio::increase_volume_simple()\<close> should the iteration call it.
\<close>

record tick =
  hid :: hid_read
  audio :: "unit outcome"

text \<open>Checked indexing: \<open>xs[i]\<close> panics out of range.\<close>

definition at :: "'a list \<Rightarrow> nat \<Rightarrow> 'a option" where
  "at xs i = (if i < length xs then Some (xs ! i) else None)"

text \<open>
  The body of \<open>loop { ... }\<close>, one list element per iteration (the loop itself never
  ends; the list is the part of its run that is observed). \<open>ups\<close> counts the calls of
  \<open>audio::increase_volume_simple()\<close>, the only thing the loop emits. Each \<open>?\<close> leaves
  the loop with the error. The 50 ms sleep between iterations has no effect on the state.
\<close>

fun polling_loop ::
  "tick list \<Rightarrow> StreamDeck \<Rightarrow> bool list \<Rightarrow> nat \<Rightarrow> unit outcome \<times> StreamDeck \<times> bool list \<times> nat" where
  "polling_loop [] streamdeck prev_states ups = (Ok (), streamdeck, prev_states, ups)"
| "polling_loop (t # ts) streamdeck prev_states ups =
     (case read_buttons (hid t) streamdeck of
        (Ok current, streamdeck') \<Rightarrow>
          (case at current 0 of
             None \<Rightarrow> (Panic, streamdeck', prev_states, ups)
           | Some c \<Rightarrow>
               if c then
                 (case at prev_states 0 of
                    None \<Rightarrow> (Panic, streamdeck', prev_states, ups)
                  | Some p \<Rightarrow>
                      if \<not> p then
                        (case audio t of
                           Ok _ \<Rightarrow> polling_loop ts streamdeck' current (Suc ups)
                         | Err e \<Rightarrow> (Err e, streamdeck', prev_states, Suc ups)
                         | Panic \<Rightarrow> (Panic, streamdeck', prev_states, Suc ups))
                      else polling_loop ts streamdeck' current ups)
               else polling_loop ts streamdeck' current ups)
      | (Err e, streamdeck') \<Rightarrow> (Err e, streamdeck', prev_states, ups)
      | (Panic, streamdeck') \<Rightarrow> (Panic, streamdeck', prev_states, ups))"

text \<open>\<open>let mut prev_states = [false; 15];\<close> and then the loop.\<close>

definition polling :: "tick list \<Rightarrow> StreamDeck \<Rightarrow> unit outcome \<times> StreamDeck \<times> bool list \<times> nat" where
  "polling ts streamdeck = polling_loop ts streamdeck (replicate 15 False) 0"

text \<open>The number of press actions the loop has called when it stops.\<close>

definition presses :: "unit outcome \<times> StreamDeck \<times> bool list \<times> nat \<Rightarrow> nat" where
  "presses res = snd (snd (snd res))"

text \<open>
  Button 0 reads \<open>v\<close> in every iteration of a run: each \<open>read_buttons\<close> succeeds and
  returns states whose entry 0 is \<open>v\<close>.
\<close>

fun button0_reads :: "bool \<Rightarrow> tick list \<Rightarrow> StreamDeck \<Rightarrow> bool" where
  "button0_reads v [] streamdeck = True"
| "button0_reads v (t # ts) streamdeck =
     (case read_buttons (hid t) streamdeck of
        (Ok current, streamdeck') \<Rightarrow> current ! 0 = v \<and> button0_reads v ts streamdeck'
      | _ \<Rightarrow> False)"

text \<open>
  The states the loop reads, one per iteration, up to the first read that fails.
\<close>

fun readings :: "tick list \<Rightarrow> StreamDeck \<Rightarrow> bool list list" where
  "readings [] sd = []"
| "readings (t # ts) sd =
     (case read_buttons (hid t) sd of
        (Ok current, sd') \<Rightarrow> current # readings ts sd'
      | _ \<Rightarrow> [])"

text \<open>
  The number of false-to-true changes in a sequence of readings of one button that
  read \<open>p\<close> before.
\<close>

fun rising_edges :: "bool \<Rightarrow> bool list \<Rightarrow> nat" where
  "rising_edges p [] = 0"
| "rising_edges p (c # cs) = (if c \<and> \<not> p then 1 else 0) + rising_edges c cs"

text \<open>
  The states read in the last iteration of \<open>pre\<close>; before the first iteration the loop
  takes every button as up (\<open>[false; 15]\<close>).
\<close>

definition last_reading :: "tick list \<Rightarrow> StreamDeck \<Rightarrow> bool list" where
  "last_reading pre sd = last (replicate 15 False # readings pre sd)"

section \<open>Managed state and \<open>connect_device\<close> (implementation guide, Phase 2)\<close>

text \<open>\<open>pub struct AppState { pub streamdeck: Mutex<Option<StreamDeck>> }\<close>\<close>

record AppState =
  streamdeck :: "StreamDeck option"

text \<open>
  \<open>StreamDeck::connect\<close> is in \<open>src-tauri/src/hid/device.rs\<close>, which the sources do not
  hold; it is the parameter \<open>hid_connect\<close>: what opening the HID device at a path returns.
  The \<open>?\<close> returns its error before anything is stored (and before Phase 3 would
  spawn the polling thread).
\<close>

definition connect_device ::
  "(string \<Rightarrow> StreamDeck outcome) \<Rightarrow> string \<Rightarrow> AppState \<Rightarrow> unit outcome \<times> AppState" where
  "connect_device hid_connect device_path state =
     (case hid_connect device_path of
        Ok sd \<Rightarrow> (Ok (), state\<lparr>streamdeck := Some sd\<rparr>)
      | Err e \<Rightarrow> (Err e, state)
      | Panic \<Rightarrow> (Panic, state))"

text \<open>
  Modelled from the spec: the backend command \<open>disconnect_device\<close>
  (\<open>src-tauri/src/commands/streamdeck.rs\<close> is not among the sources; the guide only says
  "update \<open>disconnect_device\<close> similarly"). Spec 4.4 and 8: disconnecting closes the
  transport and leaves the session \<open>Disconnected\<close>; "invoking it while already
  \<open>Disconnected\<close> is a no-op success, not an error", "without invoking the transport's
  close a second time". The second component of the result lists the transport handles
  whose close the call invoked.
\<close>

definition disconnect_device :: "AppState \<Rightarrow> (unit outcome \<times> StreamDeck list) \<times> AppState" where
  "disconnect_device state =
     (case streamdeck state of
        None \<Rightarrow> ((Ok (), []), state)
      | Some sd \<Rightarrow> ((Ok (), [sd]), state\<lparr>streamdeck := None\<rparr>))"

section \<open>The frontend composable \<open>useStreamDeck\<close>\<close>

record DeviceInfo =
  path :: string
  product_name :: string
  serial_number :: "string option"
  vendor_id :: nat
  product_id :: nat

text \<open>\<open>interface ButtonEvent { buttons: boolean[] }\<close>, the payload of a button-state event.\<close>

record ButtonEvent =
  buttons :: "bool list"

text \<open>An \<open>UnlistenFn\<close> is known by the listener it removes.\<close>

type_synonym UnlistenFn = nat

text \<open>The three refs of the composable and its closure variable \<open>unlistenFn\<close>.\<close>

record Composable =
  devices :: "DeviceInfo list"
  connectedDevice :: "DeviceInfo option"
  buttonStates :: "bool list"
  unlistenFn :: "UnlistenFn option"

definition useStreamDeck :: Composable where
  "useStreamDeck =
     \<lparr>devices = [], connectedDevice = None, buttonStates = replicate 15 False, unlistenFn = None\<rparr>"

text \<open>The running application: the backend's managed state and the frontend's composable.\<close>

record App =
  backend :: AppState
  ui :: Composable

text \<open>
  \<open>listDevices\<close>: \<open>discovered\<close> is what \<open>invoke("list_devices")\<close> settles with. A rejected
  \<open>invoke\<close> throws out of the \<open>async\<close> function before the assignment.
\<close>

definition listDevices :: "DeviceInfo list outcome \<Rightarrow> App \<Rightarrow> unit outcome \<times> App" where
  "listDevices discovered app =
     (case discovered of
        Ok result \<Rightarrow> (Ok (), app\<lparr>ui := (ui app)\<lparr>devices := result\<rparr>\<rparr>)
      | Err e \<Rightarrow> (Err e, app)
      | Panic \<Rightarrow> (Panic, app))"

text \<open>
  \<open>connect\<close>: \<open>await invoke("connect_device", { devicePath })\<close> runs the backend command;
  when it rejects, the rest of the function is skipped.
\<close>

definition connect ::
  "(string \<Rightarrow> StreamDeck outcome) \<Rightarrow> string \<Rightarrow> App \<Rightarrow> unit outcome \<times> App" where
  "connect hid_connect devicePath app =
     (case connect_device hid_connect devicePath (backend app) of
        (Ok _, state) \<Rightarrow>
          (case find (\<lambda>d. path d = devicePath) (devices (ui app)) of
             Some found \<Rightarrow>
               (Ok (), app\<lparr>backend := state, ui := (ui app)\<lparr>connectedDevice := Some found\<rparr>\<rparr>)
           | None \<Rightarrow> (Ok (), app\<lparr>backend := state\<rparr>))
      | (Err e, state) \<Rightarrow> (Err e, app\<lparr>backend := state\<rparr>)
      | (Panic, state) \<Rightarrow> (Panic, app\<lparr>backend := state\<rparr>))"

text \<open>\<open>disconnect\<close>: the result carries the transport handles the backend closed.\<close>

definition disconnect :: "App \<Rightarrow> (unit outcome \<times> StreamDeck list) \<times> App" where
  "disconnect app =
     (case disconnect_device (backend app) of
        ((Ok _, closed), state) \<Rightarrow>
          ((Ok (), closed),
           app\<lparr>backend := state,
               ui := (ui app)\<lparr>connectedDevice := None, buttonStates := replicate 15 False\<rparr>\<rparr>)
      | ((Err e, closed), state) \<Rightarrow> ((Err e, closed), app\<lparr>backend := state\<rparr>)
      | ((Panic, closed), state) \<Rightarrow> ((Panic, closed), app\<lparr>backend := state\<rparr>))"

text \<open>No device handle in the backend and no connected device in the frontend.\<close>

definition disconnected :: "App \<Rightarrow> bool" where
  "disconnected app = (streamdeck (backend app) = None \<and> connectedDevice (ui app) = None)"

text \<open>
  \<open>setupButtonListener\<close>: the assignment runs once \<open>await listen(...)\<close> has resolved with
  the unlisten function \<open>f\<close>; until then the composable is untouched. The listener itself
  is \<open>on_button_state\<close>.
\<close>

definition setupButtonListener :: "UnlistenFn \<Rightarrow> Composable \<Rightarrow> Composable" where
  "setupButtonListener f c = c\<lparr>unlistenFn := Some f\<rparr>"

definition on_button_state :: "ButtonEvent \<Rightarrow> Composable \<Rightarrow> Composable" where
  "on_button_state event c = c\<lparr>buttonStates := buttons event\<rparr>"

text \<open>\<open>cleanupButtonListener\<close>: the result lists the unlisten functions the call invoked.\<close>

definition cleanupButtonListener :: "Composable \<Rightarrow> UnlistenFn list \<times> Composable" where
  "cleanupButtonListener c =
     (case unlistenFn c of
        Some f \<Rightarrow> ([f], c\<lparr>unlistenFn := None\<rparr>)
      | None \<Rightarrow> ([], c))"

text \<open>\<open>n\<close> calls in a row, with everything they invoked.\<close>

fun cleanups :: "nat \<Rightarrow> Composable \<Rightarrow> UnlistenFn list \<times> Composable" where
  "cleanups 0 c = ([], c)"
| "cleanups (Suc n) c =
     (case cleanupButtonListener c of
        (invoked, c') \<Rightarrow> (case cleanups n c' of (later, c'') \<Rightarrow> (invoked @ later, c'')))"

section \<open>The outbound button-state stream\<close>

text \<open>
  \<open>app_handle.emit("streamdeck://button-state", json!({ "buttons": button_states.to_vec() }))\<close>
  (guide, Phase 3): the payload built from the states \<open>read_buttons\<close> returned.
\<close>

definition emit_button_state :: "bool list \<Rightarrow> ButtonEvent" where
  "emit_button_state states = \<lparr>buttons = states\<rparr>"

text \<open>
  Modelled from the spec: the Session and the Poller's tick. The polling thread of
  \<open>src-tauri/src/commands/streamdeck.rs\<close> is not among the sources (the guide gives its
  skeleton with the body in comments). Spec 3: a Session holds the transport and
  \<open>last_states\<close>. Spec 4.4 and 6: a tick reads and decodes a report, compares it with
  \<open>last_states\<close>, updates \<open>last_states\<close>, and the stream carries the full current state
  "after each tick with at least one edge"; a transport error stops the loop. Spec 4.3:
  a length mismatch counts the previous states as all false. Reading and decoding is
  \<open>read_buttons\<close>, the payload is \<open>emit_button_state\<close>, both from the sources.
\<close>

record Session =
  transport :: StreamDeck
  last_states :: "bool list"

text \<open>
  Modelled from the spec: the indices at which a tick has an edge (glossary: an edge is
  a change in a boolean signal), in ascending order; previous states of another length
  count as all false (spec 4.3). The Edge Detector is not among the sources.
\<close>

definition edges :: "bool list \<Rightarrow> bool list \<Rightarrow> nat list" where
  "edges previous current =
     (let p = (if length previous = length current then previous
               else replicate (length current) False)
      in filter (\<lambda>i. p ! i \<noteq> current ! i) [0..<length current])"

text \<open>
  Modelled from the spec: one tick of the Poller (spec 4.4, 6), which is not among the
  sources: read and decode, compare with \<open>last_states\<close>, update \<open>last_states\<close>, emit
  the full current state when the tick has at least one edge.
\<close>

definition poll_once :: "hid_read \<Rightarrow> Session \<Rightarrow> ButtonEvent option outcome \<times> Session" where
  "poll_once r s =
     (case read_buttons r (transport s) of
        (Ok current, sd) \<Rightarrow>
          (Ok (if edges (last_states s) current = [] then None
               else Some (emit_button_state current)),
           s\<lparr>transport := sd, last_states := current\<rparr>)
      | (Err e, sd) \<Rightarrow> (Err e, s\<lparr>transport := sd\<rparr>)
      | (Panic, sd) \<Rightarrow> (Panic, s\<lparr>transport := sd\<rparr>))"

text \<open>
  Modelled from the spec: the Poller's loop (spec 4.4), which is not among the sources,
  as the payloads the stream delivers over a sequence of ticks; a transport error stops
  the loop.
\<close>

fun poller :: "hid_read list \<Rightarrow> Session \<Rightarrow> ButtonEvent list" where
  "poller [] s = []"
| "poller (r # rs) s =
     (case poll_once r s of
        (Ok out, s') \<Rightarrow> (case out of Some event \<Rightarrow> event # poller rs s' | None \<Rightarrow> poller rs s')
      | (Err e, s') \<Rightarrow> []
      | (Panic, s') \<Rightarrow> [])"

section \<open>Action registry and dispatcher\<close>

text \<open>
  Modelled from the spec: the Action, the ActionRegistry, \<open>register\<close> and \<open>dispatch\<close>
  (\<open>src-tauri/src/actions\<close> is not among the sources; the README only describes it).
  Spec 3: an Action is a type key and parameters; the registry maps a type key to a
  handler. Spec 4.5: \<open>register\<close> overwrites; \<open>dispatch\<close> looks up \<open>action.type\<close>,
  "if absent, returns a \<open>NotFound\<close> error naming the unknown key (never invokes a default
  silently)", if present invokes the handler with the action and the context and turns
  a failure into \<open>HandlerFailed(type_key, message)\<close>. The context \<open>'ctx\<close> stands for
  everything a handler can affect.
\<close>

datatype param = StringParam string | IntParam int

record Action =
  action_type :: string
  params :: "(string \<times> param) list"

text \<open>
  Modelled from the spec: a handler's answer, \<open>success|failure(message)\<close> (spec 6), and
  the results of \<open>dispatch\<close> (spec 4.5, 7).
\<close>

datatype handler_result = Success | Failure string

datatype dispatch_result = Done | NotFound string | HandlerFailed string string

type_synonym 'ctx handler = "Action \<Rightarrow> 'ctx \<Rightarrow> handler_result \<times> 'ctx"

type_synonym 'ctx ActionRegistry = "string \<rightharpoonup> 'ctx handler"

text \<open>
  Modelled from the spec: \<open>register(type_key, handler)\<close> "overwrites any existing handler
  for that key" (spec 4.5); the registry code is not among the sources.
\<close>

definition register :: "string \<Rightarrow> 'ctx handler \<Rightarrow> 'ctx ActionRegistry \<Rightarrow> 'ctx ActionRegistry" where
  "register type_key h registry = registry(type_key \<mapsto> h)"

text \<open>
  Modelled from the spec: \<open>dispatch(action, context)\<close> (spec 4.5); the dispatcher code is
  not among the sources.
\<close>

definition dispatch :: "'ctx ActionRegistry \<Rightarrow> Action \<Rightarrow> 'ctx \<Rightarrow> dispatch_result \<times> 'ctx" where
  "dispatch registry action context =
     (case registry (action_type action) of
        None \<Rightarrow> (NotFound (action_type action), context)
      | Some h \<Rightarrow>
          (case h action context of
             (Success, context') \<Rightarrow> (Done, context')
           | (Failure message, context') \<Rightarrow>
               (HandlerFailed (action_type action) message, context')))"

section \<open>Properties of \<open>read_buttons\<close>\<close>

lemma length_fill_buf: "length (fill_buf data) = 512"
  by (simp add: fill_buf_def)

lemma store_buttons_Some:
  "offset + i + k \<le> length buf \<Longrightarrow> i + k \<le> length states \<Longrightarrow>
   \<exists>states'. store_buttons k i buf states = Some states' \<and> length states' = length states \<and>
     (\<forall>j < length states. states' ! j =
        (if i \<le> j \<and> j < i + k then buf ! (offset + j) \<noteq> 0 else states ! j))"
proof (induction k arbitrary: i states)
  case 0
  then show ?case by auto
next
  case (Suc k)
  let ?st = "states[i := (buf ! (offset + i) \<noteq> 0)]"
  from Suc.prems have a: "offset + Suc i + k \<le> length buf" and b: "Suc i + k \<le> length ?st"
    by simp_all
  from Suc.IH [OF a b] obtain states' where
    s: "store_buttons k (Suc i) buf ?st = Some states'" and
    l: "length states' = length ?st" and
    v: "\<forall>j < length ?st. states' ! j =
         (if Suc i \<le> j \<and> j < Suc i + k then buf ! (offset + j) \<noteq> 0 else ?st ! j)"
    by blast
  from Suc.prems have g: "offset + i < length buf \<and> i < length states" by simp
  have "\<forall>j < length states. states' ! j =
          (if i \<le> j \<and> j < i + Suc k then buf ! (offset + j) \<noteq> 0 else states ! j)"
  proof (intro allI impI)
    fix j assume j: "j < length states"
    with v have "states' ! j =
         (if Suc i \<le> j \<and> j < Suc i + k then buf ! (offset + j) \<noteq> 0 else ?st ! j)" by simp
    then show "states' ! j =
          (if i \<le> j \<and> j < i + Suc k then buf ! (offset + j) \<noteq> 0 else states ! j)"
      using j g by (cases "j = i") auto
  qed
  with s l g show ?case by simp
qed

lemma store_buttons_decoded:
  assumes "length states = BUTTON_COUNT"
  shows "store_buttons BUTTON_COUNT 0 (fill_buf data) states = Some (decoded data)"
proof -
  have a: "offset + 0 + BUTTON_COUNT \<le> length (fill_buf data)"
    by (simp add: length_fill_buf offset_def BUTTON_COUNT_def)
  have b: "0 + BUTTON_COUNT \<le> length states" using assms by simp
  from store_buttons_Some [OF a b] obtain states' where
    s: "store_buttons BUTTON_COUNT 0 (fill_buf data) states = Some states'" and
    l: "length states' = length states" and
    v: "\<forall>j < length states. states' ! j =
         (if 0 \<le> j \<and> j < 0 + BUTTON_COUNT then fill_buf data ! (offset + j) \<noteq> 0 else states ! j)"
    by blast
  have "states' = decoded data"
    using l v assms by (intro nth_equalityI) (simp_all add: decoded_def)
  with s show ?thesis by simp
qed

lemma read_buttons_report:
  "length (button_states self) = BUTTON_COUNT \<Longrightarrow> data \<noteq> [] \<Longrightarrow>
   read_buttons (Bytes data) self = (Ok (decoded data), self\<lparr>button_states := decoded data\<rparr>)"
  by (simp add: read_buttons_def bytes_read_def store_buttons_decoded)

lemma read_buttons_empty:
  "read_buttons (Bytes []) self = (Ok (button_states self), self)"
  by (simp add: read_buttons_def bytes_read_def)

lemma read_buttons_failed:
  "read_buttons (Failed e) self = (Err (''Read error: '' @ e), self)"
  by (simp add: read_buttons_def)

lemma length_decoded: "length (decoded data) = BUTTON_COUNT"
  by (simp add: decoded_def)

lemma read_buttons_wf:
  assumes "length (button_states self) = BUTTON_COUNT"
    and "read_buttons r self = (Ok current, self')"
  shows "length current = BUTTON_COUNT \<and> length (button_states self') = BUTTON_COUNT"
proof (cases r)
  case (Bytes data)
  show ?thesis
  proof (cases "data = []")
    case True
    with Bytes assms show ?thesis by (auto simp: read_buttons_empty)
  next
    case False
    with Bytes assms show ?thesis by (auto simp: read_buttons_report length_decoded)
  qed
next
  case (Failed e)
  with assms show ?thesis by (simp add: read_buttons_failed)
qed

lemma read_buttons_no_panic:
  assumes "length (button_states self) = BUTTON_COUNT"
  shows "fst (read_buttons r self) \<noteq> Panic"
proof (cases r)
  case (Bytes data)
  then show ?thesis using assms
    by (cases "data = []") (simp_all add: read_buttons_empty read_buttons_report)
next
  case (Failed e)
  then show ?thesis by (simp add: read_buttons_failed)
qed

lemma read_buttons_Err:
  "fst (read_buttons r self) = Err e \<Longrightarrow> \<exists>m. r = Failed m"
  by (cases r) (auto simp: read_buttons_def split: option.splits if_splits)

lemma decoded_nth:
  assumes "i < BUTTON_COUNT"
  shows "decoded data ! i = (offset + i < length data \<and> data ! (offset + i) \<noteq> 0)"
proof -
  have b: "offset + i < 512" using assms by (simp add: offset_def BUTTON_COUNT_def)
  have "fill_buf data ! (offset + i) = (if offset + i < length data then data ! (offset + i) else 0)"
    using b by (auto simp: fill_buf_def nth_append)
  then show ?thesis using assms by (simp add: decoded_def)
qed

text \<open>
  Claim C9. A device read that returns zero bytes leaves \<open>button_states\<close> as it was and
  returns \<open>Ok\<close> with the previous states; whenever a call changes \<open>button_states\<close>, the
  read returned at least one byte.
\<close>

theorem read_buttons_zero_bytes:
  "(bytes_read data = 0 \<longrightarrow> read_buttons (Bytes data) self = (Ok (button_states self), self)) \<and>
   (button_states (snd (read_buttons r self)) \<noteq> button_states self \<longrightarrow>
      (\<exists>d. r = Bytes d \<and> bytes_read d > 0))"
  by (cases r) (auto simp: read_buttons_def split: option.splits)

theorem read_buttons_zero_bytes_witness:
  "bytes_read [] = 0 \<and>
   read_buttons (Bytes []) \<lparr>device = ''hid0'', button_states = replicate 15 True\<rparr> =
     (Ok (replicate 15 True), \<lparr>device = ''hid0'', button_states = replicate 15 True\<rparr>) \<and>
   button_states (snd (read_buttons (Bytes [1, 0, 0, 0, 0])
       \<lparr>device = ''hid0'', button_states = replicate 15 True\<rparr>))
     \<noteq> button_states \<lparr>device = ''hid0'', button_states = replicate 15 True\<rparr> \<and>
   (\<exists>d. Bytes [1, 0, 0, 0, 0] = Bytes d \<and> bytes_read d > 0)"
proof -
  let ?sd = "\<lparr>device = ''hid0'', button_states = replicate 15 True\<rparr>"
  have z: "bytes_read ([]::byte list) = 0" by (simp add: bytes_read_def)
  have m: "button_states (snd (read_buttons (Bytes [1, 0, 0, 0, 0]) ?sd)) \<noteq> button_states ?sd"
    by (simp add: read_buttons_def bytes_read_def fill_buf_def BUTTON_COUNT_def offset_def
        eval_nat_numeral)
  from read_buttons_zero_bytes [of "[]" ?sd "Bytes [1, 0, 0, 0, 0]"] z m
  show ?thesis by simp
qed

text \<open>
  Claim C2, as stated, fails: a report of 5 bytes is shorter than \<open>offset + BUTTON_COUNT = 19\<close>,
  and \<open>read_buttons\<close> returns \<open>Ok\<close> with freshly decoded states, not an error.
\<close>

theorem short_report_counterexample:
  "length [1, 0, 0, 0, 1 :: byte] < offset + BUTTON_COUNT \<and>
   read_buttons (Bytes [1, 0, 0, 0, 1]) \<lparr>device = ''hid0'', button_states = replicate 15 False\<rparr> =
     (Ok (True # replicate 14 False),
      \<lparr>device = ''hid0'', button_states = True # replicate 14 False\<rparr>)"
  by (simp add: read_buttons_def bytes_read_def fill_buf_def BUTTON_COUNT_def offset_def
      eval_nat_numeral)

text \<open>
  Claim C2, amended. For every report of at least one byte, however short,
  \<open>read_buttons\<close> returns \<open>Ok\<close> with all 15 states decoded from the zero-initialised
  512-byte buffer: button \<open>i\<close> is down iff byte \<open>offset + i\<close> is inside the report and
  non-zero (a byte past the end of the report reads as zero). Every index it uses lies
  inside the buffer, so it never panics, and it returns an error only when the device
  read itself failed.
\<close>

theorem read_buttons_short_report:
  assumes "length (button_states self) = BUTTON_COUNT" and "bytes_read data > 0"
  shows "read_buttons (Bytes data) self =
           (Ok (decoded data), self\<lparr>button_states := decoded data\<rparr>) \<and>
         length (decoded data) = BUTTON_COUNT \<and>
         (\<forall>i < BUTTON_COUNT. offset + i < length (fill_buf data) \<and>
            decoded data ! i = (offset + i < length data \<and> data ! (offset + i) \<noteq> 0)) \<and>
         (\<forall>r. fst (read_buttons r self) \<noteq> Panic) \<and>
         (\<forall>r e. fst (read_buttons r self) = Err e \<longrightarrow> (\<exists>m. r = Failed m))"
proof -
  from assms(2) have ne: "data \<noteq> []" by (auto simp: bytes_read_def)
  have "\<forall>i < BUTTON_COUNT. offset + i < length (fill_buf data)"
    by (simp add: length_fill_buf offset_def BUTTON_COUNT_def)
  then show ?thesis
    using read_buttons_report [OF assms(1) ne] read_buttons_no_panic [OF assms(1)]
      read_buttons_Err [of _ self]
    by (auto simp: length_decoded decoded_nth)
qed

theorem read_buttons_short_report_witness:
  "length (button_states \<lparr>device = ''hid0'', button_states = replicate 15 False\<rparr>) = BUTTON_COUNT \<and>
   bytes_read [1, 0, 0, 0, 1] > 0 \<and>
   read_buttons (Bytes [1, 0, 0, 0, 1]) \<lparr>device = ''hid0'', button_states = replicate 15 False\<rparr> =
     (Ok (True # replicate 14 False),
      \<lparr>device = ''hid0'', button_states = True # replicate 14 False\<rparr>)"
proof -
  let ?sd = "\<lparr>device = ''hid0'', button_states = replicate 15 False\<rparr>"
  have l: "length (button_states ?sd) = BUTTON_COUNT" by (simp add: BUTTON_COUNT_def)
  have b: "bytes_read [1, 0, 0, 0, 1 :: byte] > 0" by (simp add: bytes_read_def)
  have d: "decoded [1, 0, 0, 0, 1] = True # replicate 14 False"
    by (simp add: decoded_def fill_buf_def BUTTON_COUNT_def offset_def upt_rec eval_nat_numeral)
  from read_buttons_short_report [OF l b]
  have "read_buttons (Bytes [1, 0, 0, 0, 1]) ?sd =
          (Ok (decoded [1, 0, 0, 0, 1]), ?sd\<lparr>button_states := decoded [1, 0, 0, 0, 1]\<rparr>)"
    by (rule conjunct1)
  then have r: "read_buttons (Bytes [1, 0, 0, 0, 1]) ?sd =
          (Ok (True # replicate 14 False),
           \<lparr>device = ''hid0'', button_states = True # replicate 14 False\<rparr>)"
    unfolding d by simp
  from l b r show ?thesis by blast
qed

section \<open>Properties of the polling loop\<close>

lemma at_0: "0 < length xs \<Longrightarrow> at xs 0 = Some (xs ! 0)"
  by (simp add: at_def)

text \<open>
  While button 0 keeps reading \<open>v\<close> and no rising edge is possible (it was already down,
  or it reads up), the loop calls nothing.
\<close>

lemma loop_no_rising_edge:
  "length (button_states sd) = BUTTON_COUNT \<Longrightarrow> 0 < length prev \<Longrightarrow> prev ! 0 = v \<or> \<not> v \<Longrightarrow>
   button0_reads v ts sd \<Longrightarrow> presses (polling_loop ts sd prev ups) = ups"
proof (induction ts arbitrary: sd prev)
  case Nil
  then show ?case by (simp add: presses_def)
next
  case (Cons t ts)
  from Cons.prems(4) obtain current sd' where
    r: "read_buttons (hid t) sd = (Ok current, sd')" and c: "current ! 0 = v" and
    rest: "button0_reads v ts sd'"
    by (auto split: prod.splits outcome.splits)
  from read_buttons_wf [OF Cons.prems(1) r] have
    lc: "length current = BUTTON_COUNT" and ls: "length (button_states sd') = BUTTON_COUNT"
    by simp_all
  from lc have pc: "0 < length current" by (simp add: BUTTON_COUNT_def)
  have ih: "presses (polling_loop ts sd' current ups) = ups"
    using Cons.IH [OF ls pc _ rest] c by simp
  show ?case
  proof (cases v)
    case True
    with Cons.prems(3) have "prev ! 0" by simp
    with r c True ih pc Cons.prems(2) show ?thesis by (simp add: at_0)
  next
    case False
    with r c ih pc show ?thesis by (simp add: at_0)
  qed
qed

lemma loop_rising_edge:
  assumes wf: "length (button_states sd) = BUTTON_COUNT" and lp: "0 < length prev"
    and p: "\<not> prev ! 0" and ne: "ts \<noteq> []" and held: "button0_reads True ts sd"
  shows "presses (polling_loop ts sd prev ups) = Suc ups"
proof -
  from ne obtain t ts' where ts: "ts = t # ts'" by (cases ts) auto
  from held ts obtain current sd' where
    r: "read_buttons (hid t) sd = (Ok current, sd')" and c: "current ! 0" and
    rest: "button0_reads True ts' sd'"
    by (auto split: prod.splits outcome.splits)
  from read_buttons_wf [OF wf r] have
    lc: "length current = BUTTON_COUNT" and ls: "length (button_states sd') = BUTTON_COUNT"
    by simp_all
  from lc have pc: "0 < length current" by (simp add: BUTTON_COUNT_def)
  have after: "presses (polling_loop ts' sd' current (Suc ups)) = Suc ups"
    using loop_no_rising_edge [OF ls pc _ rest] c by simp
  show ?thesis
    using ts r c p pc lp after
    by (cases "audio t") (simp_all add: at_0 presses_def)
qed

lemma loop_single_tick:
  assumes wf: "length (button_states sd) = BUTTON_COUNT" and lp: "length A = BUTTON_COUNT"
    and r: "read_buttons (hid t) sd = (Ok B, sd')"
  shows "presses (polling_loop [t] sd A ups) = (if \<not> A ! 0 \<and> B ! 0 then Suc ups else ups)"
proof -
  from read_buttons_wf [OF wf r] have "length B = BUTTON_COUNT" by simp
  then have pb: "0 < length B" by (simp add: BUTTON_COUNT_def)
  from lp have pa: "0 < length A" by (simp add: BUTTON_COUNT_def)
  show ?thesis using r pa pb
    by (cases "audio t") (simp_all add: at_0 presses_def)
qed

text \<open>
  A run that the loop finishes can be followed by more iterations: the loop goes on
  from the state the run left. That state holds the last reading in \<open>prev_states\<close>, and
  the calls made are the false-to-true changes of button 0 over the readings.
\<close>

lemma loop_step_Ok:
  assumes "polling_loop (t # ts) sd prev ups = (Ok (), sd1, prev1, ups1)"
  shows "\<exists>current sd'. read_buttons (hid t) sd = (Ok current, sd') \<and> 0 < length current \<and>
           (current ! 0 \<longrightarrow> 0 < length prev) \<and>
           polling_loop ts sd' current (if current ! 0 \<and> \<not> prev ! 0 then Suc ups else ups) =
             (Ok (), sd1, prev1, ups1)"
  using assms
  by (auto simp: at_def split: prod.splits outcome.splits option.splits if_splits)

lemma loop_append:
  "polling_loop pre sd prev ups = (Ok (), sd1, prev1, ups1) \<Longrightarrow>
   polling_loop (pre @ ts) sd prev ups = polling_loop ts sd1 prev1 ups1"
proof (induction pre arbitrary: sd prev ups)
  case Nil
  then show ?case by simp
next
  case (Cons t pre)
  from loop_step_Ok [OF Cons.prems] obtain current sd' where
    r: "read_buttons (hid t) sd = (Ok current, sd')" and lc: "0 < length current" and
    lp: "current ! 0 \<longrightarrow> 0 < length prev" and
    rest: "polling_loop pre sd' current (if current ! 0 \<and> \<not> prev ! 0 then Suc ups else ups) =
             (Ok (), sd1, prev1, ups1)"
    by blast
  note ih = Cons.IH [OF rest]
  have a: "audio t = Ok ()" if "current ! 0" "\<not> prev ! 0"
    using Cons.prems r lc lp that by (cases "audio t") (simp_all add: at_0)
  show ?case
  proof (cases "current ! 0 \<and> \<not> prev ! 0")
    case True
    with r lc lp ih a show ?thesis by (simp add: at_0)
  next
    case False
    with r lc lp ih show ?thesis by (auto simp: at_0)
  qed
qed

lemma loop_trace:
  "length (button_states sd) = BUTTON_COUNT \<Longrightarrow> length prev = BUTTON_COUNT \<Longrightarrow>
   polling_loop pre sd prev ups = (Ok (), sd1, prev1, ups1) \<Longrightarrow>
   length (button_states sd1) = BUTTON_COUNT \<and> length prev1 = BUTTON_COUNT \<and>
   prev1 = last (prev # readings pre sd) \<and>
   length (readings pre sd) = length pre \<and>
   ups1 = ups + rising_edges (prev ! 0) (map (\<lambda>c. c ! 0) (readings pre sd))"
proof (induction pre arbitrary: sd prev ups)
  case Nil
  then show ?case by simp
next
  case (Cons t pre)
  from loop_step_Ok [OF Cons.prems(3)] obtain current sd' where
    r: "read_buttons (hid t) sd = (Ok current, sd')" and
    rest: "polling_loop pre sd' current (if current ! 0 \<and> \<not> prev ! 0 then Suc ups else ups) =
             (Ok (), sd1, prev1, ups1)"
    by blast
  from read_buttons_wf [OF Cons.prems(1) r] have
    lc: "length current = BUTTON_COUNT" and ls: "length (button_states sd') = BUTTON_COUNT"
    by simp_all
  from Cons.IH [OF ls lc rest] r show ?case by auto
qed

text \<open>
  Claim C1, as stated, fails on the loop's edge detection: with button 0 down before, a
  report that shows button 0 up and button 1 down changes indices 0 and 1, and the
  iteration emits nothing (no release of button 0, no press of button 1).
\<close>

theorem tick_two_changes_counterexample:
  "polling_loop [\<lparr>hid = Bytes [1, 0, 0, 0, 0, 1], audio = Ok ()\<rparr>]
     \<lparr>device = ''hid0'', button_states = True # replicate 14 False\<rparr>
     (True # replicate 14 False) 0 =
   (Ok (), \<lparr>device = ''hid0'', button_states = False # True # replicate 13 False\<rparr>,
    False # True # replicate 13 False, 0)"
  by (simp add: read_buttons_def bytes_read_def fill_buf_def BUTTON_COUNT_def offset_def at_def
      eval_nat_numeral)

text \<open>
  Claim C1, amended. One iteration of the polling loop, with previous states \<open>A\<close> and
  the states \<open>B\<close> just read, emits exactly one event, the press action of button 0, when
  \<open>A[0]\<close> is false and \<open>B[0]\<close> is true, and no event otherwise: a change at any other
  index, and a release, emit nothing.
\<close>

theorem tick_emits_button0_press_only:
  assumes "length (button_states sd) = BUTTON_COUNT" and "length A = BUTTON_COUNT"
    and "read_buttons (hid t) sd = (Ok B, sd')"
  shows "presses (polling_loop [t] sd A ups) = (if \<not> A ! 0 \<and> B ! 0 then Suc ups else ups)"
  using assms by (rule loop_single_tick)

theorem tick_emits_button0_press_only_witness:
  "length (button_states \<lparr>device = ''hid0'', button_states = replicate 15 False\<rparr>) = BUTTON_COUNT \<and>
   length (replicate 15 False) = BUTTON_COUNT \<and>
   read_buttons (hid \<lparr>hid = Bytes [1, 0, 0, 0, 1, 1], audio = Ok ()\<rparr>)
       \<lparr>device = ''hid0'', button_states = replicate 15 False\<rparr> =
     (Ok (True # True # replicate 13 False),
      \<lparr>device = ''hid0'', button_states = True # True # replicate 13 False\<rparr>) \<and>
   presses (polling_loop [\<lparr>hid = Bytes [1, 0, 0, 0, 1, 1], audio = Ok ()\<rparr>]
       \<lparr>device = ''hid0'', button_states = replicate 15 False\<rparr> (replicate 15 False) 0) = 1"
proof -
  let ?sd = "\<lparr>device = ''hid0'', button_states = replicate 15 False\<rparr>"
  let ?t = "\<lparr>hid = Bytes [1, 0, 0, 0, 1, 1], audio = Ok ()\<rparr>"
  have l: "length (button_states ?sd) = BUTTON_COUNT" by (simp add: BUTTON_COUNT_def)
  have a: "length (replicate 15 False) = BUTTON_COUNT" by (simp add: BUTTON_COUNT_def)
  have r: "read_buttons (hid ?t) ?sd =
     (Ok (True # True # replicate 13 False),
      \<lparr>device = ''hid0'', button_states = True # True # replicate 13 False\<rparr>)"
    by (simp add: read_buttons_def bytes_read_def fill_buf_def BUTTON_COUNT_def offset_def
        eval_nat_numeral)
  have "presses (polling_loop [?t] ?sd (replicate 15 False) 0) = 1"
    using tick_emits_button0_press_only [OF l a r, of 0] by simp
  with l a r show ?thesis by blast
qed

text \<open>
  Claim C3, as stated, fails for a button other than button 0: button 1 goes down and
  stays down over two iterations, and the loop emits no press event for it. And when
  button 0 goes down and up again, the one press action is all the loop emits: nothing
  marks the release.
\<close>

theorem held_button1_counterexample:
  "fst (read_buttons (Bytes [1, 0, 0, 0, 0, 1])
      \<lparr>device = ''hid0'', button_states = replicate 15 False\<rparr>) =
     Ok (False # True # replicate 13 False) \<and>
   fst (read_buttons (Bytes [])
      \<lparr>device = ''hid0'', button_states = False # True # replicate 13 False\<rparr>) =
     Ok (False # True # replicate 13 False) \<and>
   polling [\<lparr>hid = Bytes [1, 0, 0, 0, 0, 1], audio = Ok ()\<rparr>, \<lparr>hid = Bytes [], audio = Ok ()\<rparr>]
     \<lparr>device = ''hid0'', button_states = replicate 15 False\<rparr> =
   (Ok (), \<lparr>device = ''hid0'', button_states = False # True # replicate 13 False\<rparr>,
    False # True # replicate 13 False, 0) \<and>
   polling [\<lparr>hid = Bytes [1, 0, 0, 0, 1], audio = Ok ()\<rparr>, \<lparr>hid = Bytes [1, 0, 0, 0, 0], audio = Ok ()\<rparr>]
     \<lparr>device = ''hid0'', button_states = replicate 15 False\<rparr> =
   (Ok (), \<lparr>device = ''hid0'', button_states = replicate 15 False\<rparr>, replicate 15 False, 1)"
  by (simp add: polling_def read_buttons_def bytes_read_def fill_buf_def BUTTON_COUNT_def
      offset_def at_def eval_nat_numeral)

text \<open>
  Claim C3, amended to the one button the loop watches. Take the loop from its start
  (\<open>prev_states\<close> all false) through any iterations \<open>pre\<close> that it finishes. Then
  \<open>prev_states\<close> is the last reading, and the press action has been called once for
  each false-to-true change of button 0 over the readings. A run of at least one
  further iteration in which button 0 reads down throughout adds exactly one call when
  button 0 read up in the iteration before the run (or the run is the first thing the
  loop sees), and none when it read down before; iterations in which button 0 reads
  up, the release among them, add none. So a press, a release and a second press give
  two calls; the loop emits no release event, and nothing for any other button.
\<close>

theorem held_button0_pressed_once:
  assumes "length (button_states sd) = BUTTON_COUNT"
    and "polling pre sd = (Ok (), sd1, prev1, n)"
  shows "prev1 = last_reading pre sd \<and>
         n = rising_edges False (map (\<lambda>current. current ! 0) (readings pre sd)) \<and>
         (\<not> last_reading pre sd ! 0 \<and> ts \<noteq> [] \<and> button0_reads True ts sd1 \<longrightarrow>
            presses (polling (pre @ ts) sd) = Suc n) \<and>
         (last_reading pre sd ! 0 \<and> button0_reads True ts sd1 \<longrightarrow>
            presses (polling (pre @ ts) sd) = n) \<and>
         (button0_reads False ts sd1 \<longrightarrow> presses (polling (pre @ ts) sd) = n)"
proof -
  from assms(2) have run: "polling_loop pre sd (replicate 15 False) 0 = (Ok (), sd1, prev1, n)"
    by (simp add: polling_def)
  have l0: "length (replicate 15 False) = BUTTON_COUNT" by (simp add: BUTTON_COUNT_def)
  note tr = loop_trace [OF assms(1) l0 run]
  from tr have w1: "length (button_states sd1) = BUTTON_COUNT" by blast
  from tr have w2: "length prev1 = BUTTON_COUNT" by blast
  from tr have p: "prev1 = last_reading pre sd" unfolding last_reading_def by blast
  from tr have "n = 0 + rising_edges (replicate 15 False ! 0)
      (map (\<lambda>current. current ! 0) (readings pre sd))" by blast
  then have n: "n = rising_edges False (map (\<lambda>current. current ! 0) (readings pre sd))"
    by simp
  from w2 have pos: "0 < length prev1" by (simp add: BUTTON_COUNT_def)
  have app: "polling (pre @ ts) sd = polling_loop ts sd1 prev1 n"
    using loop_append [OF run] by (simp add: polling_def)
  have a: "\<not> last_reading pre sd ! 0 \<and> ts \<noteq> [] \<and> button0_reads True ts sd1 \<longrightarrow>
            presses (polling (pre @ ts) sd) = Suc n"
    using loop_rising_edge [OF w1 pos, of ts n] p app by simp
  have b: "last_reading pre sd ! 0 \<and> button0_reads True ts sd1 \<longrightarrow>
            presses (polling (pre @ ts) sd) = n"
    using loop_no_rising_edge [OF w1 pos, of True ts n] p app by simp
  have c: "button0_reads False ts sd1 \<longrightarrow> presses (polling (pre @ ts) sd) = n"
    using loop_no_rising_edge [OF w1 pos, of False ts n] app by simp
  from p n a b c show ?thesis by blast
qed

theorem held_button0_pressed_once_witness:
  "length (button_states \<lparr>device = ''hid0'', button_states = replicate 15 False\<rparr>) = BUTTON_COUNT \<and>
   polling [\<lparr>hid = Bytes [1, 0, 0, 0, 1], audio = Ok ()\<rparr>, \<lparr>hid = Bytes [1, 0, 0, 0, 0], audio = Ok ()\<rparr>]
       \<lparr>device = ''hid0'', button_states = replicate 15 False\<rparr> =
     (Ok (), \<lparr>device = ''hid0'', button_states = replicate 15 False\<rparr>, replicate 15 False, 1) \<and>
   \<not> last_reading [\<lparr>hid = Bytes [1, 0, 0, 0, 1], audio = Ok ()\<rparr>, \<lparr>hid = Bytes [1, 0, 0, 0, 0], audio = Ok ()\<rparr>]
       \<lparr>device = ''hid0'', button_states = replicate 15 False\<rparr> ! 0 \<and>
   [\<lparr>hid = Bytes [1, 0, 0, 0, 1], audio = Ok ()\<rparr>, \<lparr>hid = Bytes [], audio = Ok ()\<rparr>] \<noteq> [] \<and>
   button0_reads True [\<lparr>hid = Bytes [1, 0, 0, 0, 1], audio = Ok ()\<rparr>, \<lparr>hid = Bytes [], audio = Ok ()\<rparr>]
       \<lparr>device = ''hid0'', button_states = replicate 15 False\<rparr> \<and>
   presses (polling
       ([\<lparr>hid = Bytes [1, 0, 0, 0, 1], audio = Ok ()\<rparr>, \<lparr>hid = Bytes [1, 0, 0, 0, 0], audio = Ok ()\<rparr>] @
        [\<lparr>hid = Bytes [1, 0, 0, 0, 1], audio = Ok ()\<rparr>, \<lparr>hid = Bytes [], audio = Ok ()\<rparr>])
       \<lparr>device = ''hid0'', button_states = replicate 15 False\<rparr>) = 2 \<and>
   polling [\<lparr>hid = Bytes [1, 0, 0, 0, 1], audio = Ok ()\<rparr>]
       \<lparr>device = ''hid0'', button_states = replicate 15 False\<rparr> =
     (Ok (), \<lparr>device = ''hid0'', button_states = True # replicate 14 False\<rparr>,
      True # replicate 14 False, 1) \<and>
   last_reading [\<lparr>hid = Bytes [1, 0, 0, 0, 1], audio = Ok ()\<rparr>]
       \<lparr>device = ''hid0'', button_states = replicate 15 False\<rparr> ! 0 \<and>
   button0_reads True [\<lparr>hid = Bytes [], audio = Ok ()\<rparr>, \<lparr>hid = Bytes [1, 0, 0, 0, 1], audio = Ok ()\<rparr>]
       \<lparr>device = ''hid0'', button_states = True # replicate 14 False\<rparr> \<and>
   presses (polling
       ([\<lparr>hid = Bytes [1, 0, 0, 0, 1], audio = Ok ()\<rparr>] @
        [\<lparr>hid = Bytes [], audio = Ok ()\<rparr>, \<lparr>hid = Bytes [1, 0, 0, 0, 1], audio = Ok ()\<rparr>])
       \<lparr>device = ''hid0'', button_states = replicate 15 False\<rparr>) = 1 \<and>
   button0_reads False [\<lparr>hid = Bytes [1, 0, 0, 0, 0], audio = Ok ()\<rparr>, \<lparr>hid = Bytes [], audio = Ok ()\<rparr>]
       \<lparr>device = ''hid0'', button_states = True # replicate 14 False\<rparr> \<and>
   presses (polling
       ([\<lparr>hid = Bytes [1, 0, 0, 0, 1], audio = Ok ()\<rparr>] @
        [\<lparr>hid = Bytes [1, 0, 0, 0, 0], audio = Ok ()\<rparr>, \<lparr>hid = Bytes [], audio = Ok ()\<rparr>])
       \<lparr>device = ''hid0'', button_states = replicate 15 False\<rparr>) = 1"
proof -
  let ?up = "\<lparr>device = ''hid0'', button_states = replicate 15 False\<rparr>"
  let ?down = "\<lparr>device = ''hid0'', button_states = True # replicate 14 False\<rparr>"
  let ?press = "\<lparr>hid = Bytes [1, 0, 0, 0, 1], audio = Ok ()\<rparr>"
  let ?release = "\<lparr>hid = Bytes [1, 0, 0, 0, 0], audio = Ok ()\<rparr>"
  let ?idle = "\<lparr>hid = Bytes [], audio = Ok ()\<rparr>"
  have wf: "length (button_states ?up) = BUTTON_COUNT" by (simp add: BUTTON_COUNT_def)
  have r1: "read_buttons (Bytes [1, 0, 0, 0, 1]) ?up = (Ok (True # replicate 14 False), ?down)"
    by (simp add: read_buttons_def bytes_read_def fill_buf_def BUTTON_COUNT_def offset_def
        eval_nat_numeral)
  have r2: "read_buttons (Bytes [1, 0, 0, 0, 0]) ?down = (Ok (replicate 15 False), ?up)"
    by (simp add: read_buttons_def bytes_read_def fill_buf_def BUTTON_COUNT_def offset_def
        eval_nat_numeral)
  have r3: "read_buttons (Bytes [1, 0, 0, 0, 1]) ?down = (Ok (True # replicate 14 False), ?down)"
    by (simp add: read_buttons_def bytes_read_def fill_buf_def BUTTON_COUNT_def offset_def
        eval_nat_numeral)
  have p1: "polling [?press, ?release] ?up = (Ok (), ?up, replicate 15 False, 1)"
    by (simp add: polling_def r1 r2 at_def)
  have p2: "polling [?press] ?up = (Ok (), ?down, True # replicate 14 False, 1)"
    by (simp add: polling_def r1 at_def)
  have b1: "\<not> last_reading [?press, ?release] ?up ! 0"
    by (simp add: last_reading_def r1 r2)
  have b2: "last_reading [?press] ?up ! 0"
    by (simp add: last_reading_def r1)
  have n: "[?press, ?idle] \<noteq> []" by simp
  have h1: "button0_reads True [?press, ?idle] ?up"
    by (simp add: r1 read_buttons_empty)
  have h2: "button0_reads True [?idle, ?press] ?down"
    by (simp add: r3 read_buttons_empty)
  have h3: "button0_reads False [?release, ?idle] ?down"
    by (simp add: r2 read_buttons_empty)
  have c1: "presses (polling ([?press, ?release] @ [?press, ?idle]) ?up) = 2"
    using held_button0_pressed_once [OF wf p1, of "[?press, ?idle]"] b1 n h1 by simp
  have c2: "presses (polling ([?press] @ [?idle, ?press]) ?up) = 1"
    using held_button0_pressed_once [OF wf p2, of "[?idle, ?press]"] b2 h2 by simp
  have c3: "presses (polling ([?press] @ [?release, ?idle]) ?up) = 1"
    using held_button0_pressed_once [OF wf p2, of "[?release, ?idle]"] h3 by simp
  show ?thesis
    by (intro conjI) (fact wf p1 b1 n h1 c1 p2 b2 h2 c2 h3 c3)+
qed

section \<open>Properties of the frontend composable\<close>

text \<open>
  Claim C4. When opening the transport fails, \<open>connect\<close> returns that error and the
  whole application state is exactly what it was: no device handle is stored in the
  backend, \<open>connectedDevice\<close> and the button states are untouched; started
  disconnected, it is disconnected afterwards.
\<close>

theorem connect_open_fails:
  assumes "hid_connect devicePath = Err e"
  shows "connect hid_connect devicePath app = (Err e, app) \<and>
         (disconnected app \<longrightarrow> disconnected (snd (connect hid_connect devicePath app)))"
proof -
  from assms have "connect_device hid_connect devicePath (backend app) = (Err e, backend app)"
    by (simp add: connect_device_def)
  then have "connect hid_connect devicePath app = (Err e, app)"
    by (simp add: connect_def)
  then show ?thesis by simp
qed

theorem connect_open_fails_witness:
  "(\<lambda>p. if p = ''hid0'' then Ok \<lparr>device = ''hid0'', button_states = replicate 15 False\<rparr>
        else Err ''device not found'') ''nonexistent-path'' = Err ''device not found'' \<and>
   disconnected \<lparr>backend = \<lparr>streamdeck = None\<rparr>, ui = useStreamDeck\<rparr> \<and>
   connect (\<lambda>p. if p = ''hid0'' then Ok \<lparr>device = ''hid0'', button_states = replicate 15 False\<rparr>
        else Err ''device not found'') ''nonexistent-path''
      \<lparr>backend = \<lparr>streamdeck = None\<rparr>, ui = useStreamDeck\<rparr> =
     (Err ''device not found'', \<lparr>backend = \<lparr>streamdeck = None\<rparr>, ui = useStreamDeck\<rparr>) \<and>
   disconnected (snd (connect (\<lambda>p. if p = ''hid0'' then Ok \<lparr>device = ''hid0'', button_states = replicate 15 False\<rparr>
        else Err ''device not found'') ''nonexistent-path''
      \<lparr>backend = \<lparr>streamdeck = None\<rparr>, ui = useStreamDeck\<rparr>))"
proof -
  let ?open = "\<lambda>p. if p = ''hid0'' then Ok \<lparr>device = ''hid0'', button_states = replicate 15 False\<rparr>
        else Err ''device not found''"
  let ?app = "\<lparr>backend = \<lparr>streamdeck = None\<rparr>, ui = useStreamDeck\<rparr>"
  have f: "?open ''nonexistent-path'' = Err ''device not found''" by simp
  have d: "disconnected ?app" by (simp add: disconnected_def useStreamDeck_def)
  from connect_open_fails [of ?open "''nonexistent-path''" "''device not found''" ?app, OF f] d
  have "connect ?open ''nonexistent-path'' ?app = (Err ''device not found'', ?app) \<and>
        disconnected (snd (connect ?open ''nonexistent-path'' ?app))" by blast
  with f d show ?thesis by blast
qed

text \<open>
  Claim C8. When the backend connects, \<open>connect\<close> succeeds and leaves the device list as
  it was. If the list has an entry with the given path, \<open>connectedDevice\<close> becomes that
  entry (the first one \<open>find\<close> meets); if it has none, \<open>connectedDevice\<close> keeps its value,
  so it stays null although the connection succeeded.
\<close>

theorem connect_sets_connectedDevice:
  assumes "hid_connect devicePath = Ok sd"
  shows "fst (connect hid_connect devicePath app) = Ok () \<and>
         devices (ui (snd (connect hid_connect devicePath app))) = devices (ui app) \<and>
         ((\<exists>d \<in> set (devices (ui app)). path d = devicePath) \<longrightarrow>
            (\<exists>d. connectedDevice (ui (snd (connect hid_connect devicePath app))) = Some d \<and>
                 d \<in> set (devices (ui app)) \<and> path d = devicePath \<and>
                 find (\<lambda>d. path d = devicePath) (devices (ui app)) = Some d)) \<and>
         ((\<forall>d \<in> set (devices (ui app)). path d \<noteq> devicePath) \<longrightarrow>
            connectedDevice (ui (snd (connect hid_connect devicePath app))) =
              connectedDevice (ui app))"
proof -
  let ?f = "find (\<lambda>d. path d = devicePath) (devices (ui app))"
  from assms have cd: "connect_device hid_connect devicePath (backend app) =
      (Ok (), (backend app)\<lparr>streamdeck := Some sd\<rparr>)"
    by (simp add: connect_device_def)
  show ?thesis
  proof (cases ?f)
    case None
    then have "\<forall>d \<in> set (devices (ui app)). path d \<noteq> devicePath"
      by (simp add: find_None_iff)
    with None cd show ?thesis by (simp add: connect_def)
  next
    case (Some d)
    then have "d \<in> set (devices (ui app)) \<and> path d = devicePath"
      by (auto simp: find_Some_iff)
    with Some cd show ?thesis by (auto simp: connect_def)
  qed
qed

theorem connect_sets_connectedDevice_witness:
  "(\<lambda>p. Ok \<lparr>device = p, button_states = replicate 15 False\<rparr>) ''hid1'' =
     Ok \<lparr>device = ''hid1'', button_states = replicate 15 False\<rparr> \<and>
   (\<exists>d \<in> set [\<lparr>path = ''hid0'', product_name = ''Stream Deck MK.2'', serial_number = Some ''A1'',
                  vendor_id = 4057, product_id = 128\<rparr>,
                 \<lparr>path = ''hid1'', product_name = ''Stream Deck'', serial_number = None,
                  vendor_id = 4057, product_id = 96\<rparr>]. path d = ''hid1'') \<and>
   connectedDevice (ui (snd (connect (\<lambda>p. Ok \<lparr>device = p, button_states = replicate 15 False\<rparr>) ''hid1''
     \<lparr>backend = \<lparr>streamdeck = None\<rparr>,
      ui = \<lparr>devices = [\<lparr>path = ''hid0'', product_name = ''Stream Deck MK.2'', serial_number = Some ''A1'',
                  vendor_id = 4057, product_id = 128\<rparr>,
                 \<lparr>path = ''hid1'', product_name = ''Stream Deck'', serial_number = None,
                  vendor_id = 4057, product_id = 96\<rparr>],
            connectedDevice = None, buttonStates = replicate 15 False, unlistenFn = None\<rparr>\<rparr>))) =
     Some \<lparr>path = ''hid1'', product_name = ''Stream Deck'', serial_number = None,
                  vendor_id = 4057, product_id = 96\<rparr> \<and>
   (\<lambda>p. Ok \<lparr>device = p, button_states = replicate 15 False\<rparr>) ''hid7'' =
     Ok \<lparr>device = ''hid7'', button_states = replicate 15 False\<rparr> \<and>
   ''hid7'' \<notin> path ` set [\<lparr>path = ''hid0'', product_name = ''Stream Deck MK.2'', serial_number = Some ''A1'',
                  vendor_id = 4057, product_id = 128\<rparr>,
                 \<lparr>path = ''hid1'', product_name = ''Stream Deck'', serial_number = None,
                  vendor_id = 4057, product_id = 96\<rparr>] \<and>
   fst (connect (\<lambda>p. Ok \<lparr>device = p, button_states = replicate 15 False\<rparr>) ''hid7''
     \<lparr>backend = \<lparr>streamdeck = None\<rparr>,
      ui = \<lparr>devices = [\<lparr>path = ''hid0'', product_name = ''Stream Deck MK.2'', serial_number = Some ''A1'',
                  vendor_id = 4057, product_id = 128\<rparr>,
                 \<lparr>path = ''hid1'', product_name = ''Stream Deck'', serial_number = None,
                  vendor_id = 4057, product_id = 96\<rparr>],
            connectedDevice = None, buttonStates = replicate 15 False, unlistenFn = None\<rparr>\<rparr>) = Ok () \<and>
   connectedDevice (ui (snd (connect (\<lambda>p. Ok \<lparr>device = p, button_states = replicate 15 False\<rparr>) ''hid7''
     \<lparr>backend = \<lparr>streamdeck = None\<rparr>,
      ui = \<lparr>devices = [\<lparr>path = ''hid0'', product_name = ''Stream Deck MK.2'', serial_number = Some ''A1'',
                  vendor_id = 4057, product_id = 128\<rparr>,
                 \<lparr>path = ''hid1'', product_name = ''Stream Deck'', serial_number = None,
                  vendor_id = 4057, product_id = 96\<rparr>],
            connectedDevice = None, buttonStates = replicate 15 False, unlistenFn = None\<rparr>\<rparr>))) = None"
proof -
  let ?open = "\<lambda>p. Ok \<lparr>device = p, button_states = replicate 15 False\<rparr>"
  let ?d0 = "\<lparr>path = ''hid0'', product_name = ''Stream Deck MK.2'', serial_number = Some ''A1'',
                  vendor_id = 4057, product_id = 128\<rparr>"
  let ?d1 = "\<lparr>path = ''hid1'', product_name = ''Stream Deck'', serial_number = None,
                  vendor_id = 4057, product_id = 96\<rparr>"
  let ?app = "\<lparr>backend = \<lparr>streamdeck = None\<rparr>,
      ui = \<lparr>devices = [?d0, ?d1],
            connectedDevice = None, buttonStates = replicate 15 False, unlistenFn = None\<rparr>\<rparr>"
  have o1: "?open ''hid1'' = Ok \<lparr>device = ''hid1'', button_states = replicate 15 False\<rparr>" by simp
  have o7: "?open ''hid7'' = Ok \<lparr>device = ''hid7'', button_states = replicate 15 False\<rparr>" by simp
  have e1: "\<exists>d \<in> set [?d0, ?d1]. path d = ''hid1''" by simp
  have n7: "''hid7'' \<notin> path ` set [?d0, ?d1]" by simp
  then have n7': "\<forall>d \<in> set (devices (ui ?app)). path d \<noteq> ''hid7''" by simp
  have f1: "find (\<lambda>d. path d = ''hid1'') (devices (ui ?app)) = Some ?d1" by simp
  from connect_sets_connectedDevice [of ?open "''hid1''" _ ?app, OF o1] e1 f1
  have c1: "connectedDevice (ui (snd (connect ?open ''hid1'' ?app))) = Some ?d1"
    by auto
  from connect_sets_connectedDevice [of ?open "''hid7''" _ ?app, OF o7] n7'
  have c7: "fst (connect ?open ''hid7'' ?app) = Ok () \<and>
            connectedDevice (ui (snd (connect ?open ''hid7'' ?app))) = None"
    by simp
  show ?thesis
    by (intro conjI) (fact o1 e1 c1 o7 n7 c7 [THEN conjunct1] c7 [THEN conjunct2])+
qed

text \<open>
  Claim C6. \<open>disconnect\<close> on an application that is already disconnected succeeds,
  closes no transport and leaves it disconnected; after any \<open>disconnect\<close>, a second one
  succeeds, closes nothing and changes nothing.
\<close>

theorem disconnect_idempotent:
  "(disconnected app \<longrightarrow>
      fst (disconnect app) = (Ok (), []) \<and> disconnected (snd (disconnect app))) \<and>
   fst (disconnect (snd (disconnect app))) = (Ok (), []) \<and>
   snd (disconnect (snd (disconnect app))) = snd (disconnect app) \<and>
   disconnected (snd (disconnect app))"
  by (cases "streamdeck (backend app)")
    (simp_all add: disconnect_def disconnect_device_def disconnected_def)

theorem disconnect_idempotent_witness:
  "disconnected \<lparr>backend = \<lparr>streamdeck = None\<rparr>, ui = useStreamDeck\<rparr> \<and>
   fst (disconnect \<lparr>backend = \<lparr>streamdeck = None\<rparr>, ui = useStreamDeck\<rparr>) = (Ok (), []) \<and>
   disconnected (snd (disconnect \<lparr>backend = \<lparr>streamdeck = None\<rparr>, ui = useStreamDeck\<rparr>)) \<and>
   fst (disconnect
     \<lparr>backend = \<lparr>streamdeck = Some \<lparr>device = ''hid0'', button_states = replicate 15 False\<rparr>\<rparr>,
      ui = useStreamDeck\<rparr>) =
     (Ok (), [\<lparr>device = ''hid0'', button_states = replicate 15 False\<rparr>]) \<and>
   fst (disconnect (snd (disconnect
     \<lparr>backend = \<lparr>streamdeck = Some \<lparr>device = ''hid0'', button_states = replicate 15 False\<rparr>\<rparr>,
      ui = useStreamDeck\<rparr>))) = (Ok (), [])"
proof -
  let ?off = "\<lparr>backend = \<lparr>streamdeck = None\<rparr>, ui = useStreamDeck\<rparr>"
  let ?on = "\<lparr>backend = \<lparr>streamdeck = Some \<lparr>device = ''hid0'', button_states = replicate 15 False\<rparr>\<rparr>,
      ui = useStreamDeck\<rparr>"
  have d: "disconnected ?off" by (simp add: disconnected_def useStreamDeck_def)
  from disconnect_idempotent [of ?off] d
  have a: "fst (disconnect ?off) = (Ok (), []) \<and> disconnected (snd (disconnect ?off))" by blast
  have b: "fst (disconnect ?on) = (Ok (), [\<lparr>device = ''hid0'', button_states = replicate 15 False\<rparr>])"
    by (simp add: disconnect_def disconnect_device_def)
  from disconnect_idempotent [of ?on]
  have c: "fst (disconnect (snd (disconnect ?on))) = (Ok (), [])" by blast
  show ?thesis
    by (intro conjI) (fact d a [THEN conjunct1] a [THEN conjunct2] b c)+
qed

text \<open>
  Only \<open>setupButtonListener\<close> and \<open>cleanupButtonListener\<close> write \<open>unlistenFn\<close>: until the
  first \<open>await listen(...)\<close> has resolved, the handle is the initial null.
\<close>

lemma unlistenFn_frame:
  "unlistenFn (ui (snd (listDevices discovered app))) = unlistenFn (ui app)"
  "unlistenFn (ui (snd (connect hid_connect devicePath app))) = unlistenFn (ui app)"
  "unlistenFn (ui (snd (disconnect app))) = unlistenFn (ui app)"
  "unlistenFn (on_button_state event c) = unlistenFn c"
  by (auto simp: listDevices_def connect_def connect_device_def disconnect_def
      disconnect_device_def on_button_state_def split: outcome.splits option.splits)

lemma cleanups_None: "unlistenFn c = None \<Longrightarrow> cleanups n c = ([], c)"
  by (induction n) (simp_all add: cleanupButtonListener_def)

lemma cleanups_Some:
  "unlistenFn c = Some f \<Longrightarrow> cleanups (Suc n) c = ([f], c\<lparr>unlistenFn := None\<rparr>)"
  by (simp add: cleanupButtonListener_def cleanups_None)

text \<open>
  Claim C10. With an unlisten function stored, one call of \<open>cleanupButtonListener\<close>
  invokes it once and clears the handle, and any number of calls after the first invoke
  nothing more; a call right after another is a no-op; with no handle stored (as in the
  fresh composable, before \<open>setupButtonListener\<close> has completed) every call is a no-op.
\<close>

theorem cleanupButtonListener_idempotent:
  "(\<forall>f. unlistenFn c = Some f \<longrightarrow>
       cleanupButtonListener c = ([f], c\<lparr>unlistenFn := None\<rparr>) \<and>
       cleanups (Suc n) c = ([f], c\<lparr>unlistenFn := None\<rparr>)) \<and>
   cleanupButtonListener (snd (cleanupButtonListener c)) = ([], snd (cleanupButtonListener c)) \<and>
   (unlistenFn c = None \<longrightarrow> cleanupButtonListener c = ([], c) \<and> cleanups n c = ([], c)) \<and>
   cleanupButtonListener useStreamDeck = ([], useStreamDeck) \<and>
   cleanupButtonListener (setupButtonListener g c) = ([g], c\<lparr>unlistenFn := None\<rparr>)"
proof -
  have a: "\<forall>f. unlistenFn c = Some f \<longrightarrow>
       cleanupButtonListener c = ([f], c\<lparr>unlistenFn := None\<rparr>) \<and>
       cleanups (Suc n) c = ([f], c\<lparr>unlistenFn := None\<rparr>)"
    using cleanups_Some [of c _ n] by (auto simp: cleanupButtonListener_def)
  have b: "cleanupButtonListener (snd (cleanupButtonListener c)) =
      ([], snd (cleanupButtonListener c))"
    by (cases "unlistenFn c") (simp_all add: cleanupButtonListener_def)
  have d: "unlistenFn c = None \<longrightarrow> cleanupButtonListener c = ([], c) \<and> cleanups n c = ([], c)"
    using cleanups_None [of c n] by (simp add: cleanupButtonListener_def)
  have e: "cleanupButtonListener useStreamDeck = ([], useStreamDeck)"
    by (simp add: cleanupButtonListener_def useStreamDeck_def)
  have g: "cleanupButtonListener (setupButtonListener g c) = ([g], c\<lparr>unlistenFn := None\<rparr>)"
    by (simp add: cleanupButtonListener_def setupButtonListener_def)
  from a b d e g show ?thesis by blast
qed

theorem cleanupButtonListener_idempotent_witness:
  "unlistenFn \<lparr>devices = [], connectedDevice = None, buttonStates = replicate 15 False,
       unlistenFn = Some 7\<rparr> = Some 7 \<and>
   cleanupButtonListener \<lparr>devices = [], connectedDevice = None, buttonStates = replicate 15 False,
       unlistenFn = Some 7\<rparr> = ([7], useStreamDeck) \<and>
   cleanups (Suc 2) \<lparr>devices = [], connectedDevice = None, buttonStates = replicate 15 False,
       unlistenFn = Some 7\<rparr> = ([7], useStreamDeck) \<and>
   unlistenFn useStreamDeck = None \<and>
   cleanups 3 useStreamDeck = ([], useStreamDeck)"
proof -
  let ?c = "\<lparr>devices = [], connectedDevice = None, buttonStates = replicate 15 False,
       unlistenFn = Some (7::nat)\<rparr>"
  have s: "unlistenFn ?c = Some 7" by simp
  have u: "?c\<lparr>unlistenFn := None\<rparr> = useStreamDeck" by (simp add: useStreamDeck_def)
  have n: "unlistenFn useStreamDeck = None" by (simp add: useStreamDeck_def)
  from cleanupButtonListener_idempotent [of ?c 2] s u
  have a: "cleanupButtonListener ?c = ([7], useStreamDeck) \<and> cleanups (Suc 2) ?c = ([7], useStreamDeck)"
    by simp
  from cleanupButtonListener_idempotent [of useStreamDeck 3] n
  have b: "cleanups 3 useStreamDeck = ([], useStreamDeck)" by blast
  show ?thesis
    by (intro conjI) (fact s a [THEN conjunct1] a [THEN conjunct2] n b)+
qed

section \<open>Properties of the dispatcher\<close>

text \<open>
  Claim C5. For an action whose type key has no handler, \<open>dispatch\<close> returns
  \<open>NotFound\<close> with that key and the context unchanged, exactly as the empty registry
  does, whatever handlers the registry holds under other keys: none is invoked. For a registered key the result and the new
  context are those of the registered handler, and after two registrations for one key
  they are those of the second.
\<close>

theorem dispatch_unregistered:
  "(registry (action_type action) = None \<longrightarrow>
      dispatch registry action context = (NotFound (action_type action), context) \<and>
      dispatch registry action context = dispatch Map.empty action context) \<and>
   (\<forall>h. registry (action_type action) = Some h \<longrightarrow>
      dispatch registry action context =
        (case fst (h action context) of
           Success \<Rightarrow> Done
         | Failure message \<Rightarrow> HandlerFailed (action_type action) message,
         snd (h action context))) \<and>
   dispatch (register (action_type action) h2 (register (action_type action) h1 registry))
       action context =
     (case fst (h2 action context) of
        Success \<Rightarrow> Done
      | Failure message \<Rightarrow> HandlerFailed (action_type action) message,
      snd (h2 action context))"
  by (auto simp: dispatch_def register_def split: prod.splits handler_result.splits)

theorem dispatch_unregistered_witness:
  "register ''audio.volume_down'' (\<lambda>(a::Action) (v::nat). (Success, v - 1)) Map.empty ''audio.volume_up'' = None \<and>
   dispatch (register ''audio.volume_down'' (\<lambda>(a::Action) (v::nat). (Success, v - 1)) Map.empty)
      \<lparr>action_type = ''audio.volume_up'', params = []\<rparr> (5::nat) =
     (NotFound ''audio.volume_up'', 5) \<and>
   register ''audio.volume_down'' (\<lambda>(a::Action) (v::nat). (Success, v - 1)) Map.empty ''audio.volume_down'' =
     Some (\<lambda>(a::Action) (v::nat). (Success, v - 1)) \<and>
   dispatch (register ''audio.volume_down'' (\<lambda>(a::Action) (v::nat). (Success, v - 1)) Map.empty)
      \<lparr>action_type = ''audio.volume_down'', params = []\<rparr> (5::nat) = (Done, 4) \<and>
   dispatch (register ''audio.volume_down'' (\<lambda>(a::Action) (v::nat). (Failure ''no audio device'', v))
              (register ''audio.volume_down'' (\<lambda>(a::Action) (v::nat). (Success, v - 1)) Map.empty))
      \<lparr>action_type = ''audio.volume_down'', params = []\<rparr> (5::nat) =
     (HandlerFailed ''audio.volume_down'' ''no audio device'', 5)"
proof -
  let ?down = "\<lambda>(a::Action) (v::nat). (Success, v - 1)"
  let ?fail = "\<lambda>(a::Action) (v::nat). (Failure ''no audio device'', v)"
  let ?reg = "register ''audio.volume_down'' ?down Map.empty"
  let ?up_action = "\<lparr>action_type = ''audio.volume_up'', params = []\<rparr>"
  let ?down_action = "\<lparr>action_type = ''audio.volume_down'', params = []\<rparr>"
  have n: "?reg ''audio.volume_up'' = None" by (simp add: register_def)
  have s: "?reg ''audio.volume_down'' = Some ?down" by (simp add: register_def)
  from dispatch_unregistered [of ?reg ?up_action 5] n
  have a: "dispatch ?reg ?up_action 5 = (NotFound ''audio.volume_up'', 5)" by simp
  from dispatch_unregistered [of ?reg ?down_action 5] s
  have b: "dispatch ?reg ?down_action 5 = (Done, 4)" by simp
  from dispatch_unregistered [of Map.empty ?down_action 5 ?fail ?down]
  have c: "dispatch (register ''audio.volume_down'' ?fail ?reg) ?down_action 5 =
      (HandlerFailed ''audio.volume_down'' ''no audio device'', 5)" by simp
  show ?thesis by (intro conjI) (fact n a s b c)+
qed

section \<open>Properties of the button-state stream\<close>

lemma edges_empty_iff:
  assumes "length previous = length current"
  shows "edges previous current = [] \<longleftrightarrow> previous = current"
proof
  assume "edges previous current = []"
  with assms have "\<forall>i < length current. previous ! i = current ! i"
    by (simp add: edges_def filter_empty_conv)
  with assms show "previous = current" by (simp add: nth_equalityI)
next
  assume "previous = current"
  then show "edges previous current = []" by (simp add: edges_def)
qed

lemma edges_changed:
  assumes "length previous = length current" and "edges previous current \<noteq> []"
  shows "\<exists>i < length current. previous ! i \<noteq> current ! i"
proof -
  from assms have "\<exists>i \<in> set [0..<length current]. previous ! i \<noteq> current ! i"
    by (simp add: edges_def filter_empty_conv)
  then show ?thesis by auto
qed

lemma read_buttons_current:
  "read_buttons r self = (Ok current, self') \<Longrightarrow> button_states self' = current"
  by (cases r) (auto simp: read_buttons_def split: option.splits if_splits)

lemma poll_once_Ok:
  assumes "poll_once r s = (Ok out, s')"
  shows "\<exists>current sd. read_buttons r (transport s) = (Ok current, sd) \<and>
           s' = s\<lparr>transport := sd, last_states := current\<rparr> \<and>
           out = (if edges (last_states s) current = [] then None
                  else Some (emit_button_state current))"
  using assms by (auto simp: poll_once_def split: prod.splits outcome.splits)

lemma poll_once_wf:
  assumes "length (button_states (transport s)) = BUTTON_COUNT" and "poll_once r s = (Ok out, s')"
  shows "length (button_states (transport s')) = BUTTON_COUNT \<and> length (last_states s') = BUTTON_COUNT \<and>
         last_states s' = button_states (transport s')"
proof -
  from poll_once_Ok [OF assms(2)] obtain current sd where
    r: "read_buttons r (transport s) = (Ok current, sd)" and
    s': "s' = s\<lparr>transport := sd, last_states := current\<rparr>" by blast
  from read_buttons_wf [OF assms(1) r] read_buttons_current [OF r] s'
  show ?thesis by simp
qed

lemma poll_once_payload:
  assumes "length (button_states (transport s)) = BUTTON_COUNT"
    and "length (last_states s) = BUTTON_COUNT"
    and "poll_once r s = (Ok (Some event), s')"
  shows "length (buttons event) = 15 \<and> buttons event = button_states (transport s') \<and>
         (\<exists>i < 15. last_states s ! i \<noteq> buttons event ! i)"
proof -
  from poll_once_Ok [OF assms(3)] obtain current sd where
    r: "read_buttons r (transport s) = (Ok current, sd)" and
    s': "s' = s\<lparr>transport := sd, last_states := current\<rparr>" and
    out: "Some event = (if edges (last_states s) current = [] then None
                  else Some (emit_button_state current))" by blast
  from out have e: "edges (last_states s) current \<noteq> []" and ev: "buttons event = current"
    by (auto simp: emit_button_state_def split: if_splits)
  from read_buttons_wf [OF assms(1) r] have l: "length current = BUTTON_COUNT" by simp
  with assms(2) have "length (last_states s) = length current" by simp
  from edges_changed [OF this e] l have "\<exists>i < 15. last_states s ! i \<noteq> current ! i"
    by (simp add: BUTTON_COUNT_def)
  with ev l s' read_buttons_current [OF r] show ?thesis by (simp add: BUTTON_COUNT_def)
qed

lemma poll_once_silent:
  assumes "length (button_states (transport s)) = BUTTON_COUNT"
    and "length (last_states s) = BUTTON_COUNT"
    and "poll_once r s = (Ok None, s')"
  shows "last_states s' = last_states s"
proof -
  from poll_once_Ok [OF assms(3)] obtain current sd where
    r: "read_buttons r (transport s) = (Ok current, sd)" and
    s': "s' = s\<lparr>transport := sd, last_states := current\<rparr>" and
    out: "None = (if edges (last_states s) current = [] then None
                  else Some (emit_button_state current))" by blast
  from out have e: "edges (last_states s) current = []" by (auto split: if_splits)
  from read_buttons_wf [OF assms(1) r] assms(2) have "length (last_states s) = length current"
    by simp
  from edges_empty_iff [OF this] e s' show ?thesis by simp
qed

lemma poller_lengths:
  "length (button_states (transport s)) = BUTTON_COUNT \<Longrightarrow>
   length (last_states s) = BUTTON_COUNT \<Longrightarrow>
   \<forall>event \<in> set (poller rs s). length (buttons event) = 15"
proof (induction rs arbitrary: s)
  case Nil
  then show ?case by simp
next
  case (Cons r rs)
  obtain res s' where p: "poll_once r s = (res, s')" by (cases "poll_once r s")
  show ?case
  proof (cases res)
    case (Ok out)
    from poll_once_wf [OF Cons.prems(1)] p Ok have
      w1: "length (button_states (transport s')) = BUTTON_COUNT" and
      w2: "length (last_states s') = BUTTON_COUNT" by simp_all
    note ih = Cons.IH [OF w1 w2]
    show ?thesis
    proof (cases out)
      case None
      with p Ok ih show ?thesis by simp
    next
      case (Some event)
      with p Ok have "poll_once r s = (Ok (Some event), s')" by simp
      from poll_once_payload [OF Cons.prems(1,2) this]
      have "length (buttons event) = 15" by blast
      with p Ok Some ih show ?thesis by simp
    qed
  next
    case (Err e)
    with p show ?thesis by simp
  next
    case Panic
    with p show ?thesis by simp
  qed
qed

text \<open>
  Claim C7. Every payload on the stream holds exactly 15 booleans. A tick that emits a
  payload emits the full button state as it stands after the tick, and some button
  differs from the state before the tick; a tick that emits nothing left the state
  unchanged. Each tick hands a session with 15 states on to the next.
\<close>

theorem stream_payloads:
  assumes "length (button_states (transport s)) = BUTTON_COUNT"
    and "length (last_states s) = BUTTON_COUNT"
  shows "(\<forall>event \<in> set (poller rs s). length (buttons event) = 15) \<and>
         (\<forall>event s'. poll_once r s = (Ok (Some event), s') \<longrightarrow>
            length (buttons event) = 15 \<and> buttons event = button_states (transport s') \<and>
            (\<exists>i < 15. last_states s ! i \<noteq> buttons event ! i)) \<and>
         (\<forall>s'. poll_once r s = (Ok None, s') \<longrightarrow> last_states s' = last_states s) \<and>
         (\<forall>out s'. poll_once r s = (Ok out, s') \<longrightarrow>
            length (button_states (transport s')) = BUTTON_COUNT \<and>
            length (last_states s') = BUTTON_COUNT)"
  using poller_lengths [OF assms, of rs] poll_once_payload [OF assms, of r]
    poll_once_silent [OF assms, of r] poll_once_wf [OF assms(1), of r]
  by blast

theorem stream_payloads_witness:
  "length (button_states (transport
      \<lparr>transport = \<lparr>device = ''hid0'', button_states = replicate 15 False\<rparr>,
       last_states = replicate 15 False\<rparr>)) = BUTTON_COUNT \<and>
   length (last_states
      \<lparr>transport = \<lparr>device = ''hid0'', button_states = replicate 15 False\<rparr>,
       last_states = replicate 15 False\<rparr>) = BUTTON_COUNT \<and>
   poller [Bytes [1, 0, 0, 0, 1], Bytes [], Bytes [1, 0, 0, 0, 0]]
      \<lparr>transport = \<lparr>device = ''hid0'', button_states = replicate 15 False\<rparr>,
       last_states = replicate 15 False\<rparr> =
     [\<lparr>buttons = True # replicate 14 False\<rparr>, \<lparr>buttons = replicate 15 False\<rparr>] \<and>
   poll_once (Bytes [1, 0, 0, 0, 1])
      \<lparr>transport = \<lparr>device = ''hid0'', button_states = replicate 15 False\<rparr>,
       last_states = replicate 15 False\<rparr> =
     (Ok (Some \<lparr>buttons = True # replicate 14 False\<rparr>),
      \<lparr>transport = \<lparr>device = ''hid0'', button_states = True # replicate 14 False\<rparr>,
       last_states = True # replicate 14 False\<rparr>) \<and>
   length (buttons \<lparr>buttons = True # replicate 14 False\<rparr>) = 15 \<and>
   (\<exists>i < 15. replicate 15 False ! i \<noteq> buttons \<lparr>buttons = True # replicate 14 False\<rparr> ! i) \<and>
   poll_once (Bytes [])
      \<lparr>transport = \<lparr>device = ''hid0'', button_states = replicate 15 False\<rparr>,
       last_states = replicate 15 False\<rparr> =
     (Ok None,
      \<lparr>transport = \<lparr>device = ''hid0'', button_states = replicate 15 False\<rparr>,
       last_states = replicate 15 False\<rparr>)"
proof -
  let ?s = "\<lparr>transport = \<lparr>device = ''hid0'', button_states = replicate 15 False\<rparr>,
       last_states = replicate 15 False\<rparr>"
  let ?s1 = "\<lparr>transport = \<lparr>device = ''hid0'', button_states = True # replicate 14 False\<rparr>,
       last_states = True # replicate 14 False\<rparr>"
  let ?ev = "\<lparr>buttons = True # replicate 14 False\<rparr>"
  have w1: "length (button_states (transport ?s)) = BUTTON_COUNT" by (simp add: BUTTON_COUNT_def)
  have w2: "length (last_states ?s) = BUTTON_COUNT" by (simp add: BUTTON_COUNT_def)
  have r1: "read_buttons (Bytes [1, 0, 0, 0, 1]) \<lparr>device = ''hid0'', button_states = replicate 15 False\<rparr> =
      (Ok (True # replicate 14 False), \<lparr>device = ''hid0'', button_states = True # replicate 14 False\<rparr>)"
    by (simp add: read_buttons_def bytes_read_def fill_buf_def BUTTON_COUNT_def offset_def
        eval_nat_numeral)
  have r3: "read_buttons (Bytes [1, 0, 0, 0, 0]) \<lparr>device = ''hid0'', button_states = True # replicate 14 False\<rparr> =
      (Ok (replicate 15 False), \<lparr>device = ''hid0'', button_states = replicate 15 False\<rparr>)"
    by (simp add: read_buttons_def bytes_read_def fill_buf_def BUTTON_COUNT_def offset_def
        eval_nat_numeral)
  have ne: "replicate 15 False \<noteq> True # replicate 14 False"
    by (simp add: eval_nat_numeral)
  have e1: "edges (replicate 15 False) (True # replicate 14 False) \<noteq> []"
    using ne by (subst edges_empty_iff) simp_all
  have e3: "edges (True # replicate 14 False) (replicate 15 False) \<noteq> []"
    using ne by (subst edges_empty_iff) auto
  have e2: "edges (True # replicate 14 False) (True # replicate 14 False) = []"
    by (subst edges_empty_iff) simp_all
  have e0: "edges (replicate 15 False) (replicate 15 False) = []"
    by (subst edges_empty_iff) simp_all
  have p1: "poll_once (Bytes [1, 0, 0, 0, 1]) ?s = (Ok (Some ?ev), ?s1)"
    by (simp add: poll_once_def r1 e1 emit_button_state_def)
  have p2: "poll_once (Bytes []) ?s = (Ok None, ?s)"
    by (simp add: poll_once_def read_buttons_empty e0)
  have p2': "poll_once (Bytes []) ?s1 = (Ok None, ?s1)"
    by (simp add: poll_once_def read_buttons_empty e2)
  have p3: "poll_once (Bytes [1, 0, 0, 0, 0]) ?s1 = (Ok (Some \<lparr>buttons = replicate 15 False\<rparr>), ?s)"
    by (simp add: poll_once_def r3 e3 emit_button_state_def)
  have run: "poller [Bytes [1, 0, 0, 0, 1], Bytes [], Bytes [1, 0, 0, 0, 0]] ?s =
     [?ev, \<lparr>buttons = replicate 15 False\<rparr>]"
    by (simp add: p1 p2' p3)
  from stream_payloads [OF w1 w2, of _ "Bytes [1, 0, 0, 0, 1]"] p1
  have e: "length (buttons ?ev) = 15 \<and> (\<exists>i < 15. last_states ?s ! i \<noteq> buttons ?ev ! i)"
    by blast
  then have e': "length (buttons ?ev) = 15 \<and> (\<exists>i < 15. replicate 15 False ! i \<noteq> buttons ?ev ! i)"
    by simp
  show ?thesis
    by (intro conjI) (fact w1 w2 run p1 e' [THEN conjunct1] e' [THEN conjunct2] p2)+
qed

text \<open>
  The frontend's listener stores each delivered payload, so \<open>buttonStates\<close> keeps its 15
  entries.
\<close>

lemma on_button_state_length:
  assumes "length (button_states (transport s)) = BUTTON_COUNT"
    and "length (last_states s) = BUTTON_COUNT"
    and "event \<in> set (poller rs s)"
  shows "length (buttonStates (on_button_state event c)) = 15"
  using poller_lengths [OF assms(1,2)] assms(3) by (simp add: on_button_state_def)

end
